theory Spec2Isabelle
  imports Complex_Main "HOL-Library.Char_ord" "HOL-Library.List_Lexorder"
begin

section \<open>The analytic core of the AgriPrice dashboard (app.py)\<close>

text \<open>
  The script keeps one pandas table of price observations (\<open>df\<close>) and one table of typhoon
  events (\<open>df_typhoons\<close>). A table is modelled as the list of its rows, a row as a record of
  the columns the analysis reads. A float64 cell is a \<open>real option\<close>: \<open>None\<close> is NaN, and
  arithmetic is exact (rounding of float64 is not modelled). A datetime64 cell is a
  \<open>timestamp option\<close>: \<open>None\<close> is NaT. After \<open>load_data\<close> (\<open>dropna(subset=["Date",
  "Retail_Price"])\<close>) the columns Date and Retail_Price of \<open>df\<close> hold no null, so they are
  not options; Commodity_Name is not cleaned and may be null. The Date column holds the
  timestamps that \<open>load_data\<close> builds from Year and Month (lines 321 to 327).
\<close>

subsection \<open>Timestamps\<close>

record timestamp =
  year :: int
  month :: nat
  day :: nat
  nanos :: nat

text \<open>Chronological order of two timestamps, field by field.\<close>

definition ts_le :: "timestamp \<Rightarrow> timestamp \<Rightarrow> bool" where
  "ts_le a b =
     (year a < year b \<or> (year a = year b \<and>
       (month a < month b \<or> (month a = month b \<and>
         (day a < day b \<or> (day a = day b \<and> nanos a \<le> nanos b))))))"

definition ts_min :: "timestamp \<Rightarrow> timestamp \<Rightarrow> timestamp" where
  "ts_min a b = (if ts_le a b then a else b)"

definition is_leap_year :: "int \<Rightarrow> bool" where
  "is_leap_year y = ((y mod 4 = 0 \<and> y mod 100 \<noteq> 0) \<or> y mod 400 = 0)"

definition days_in_month :: "int \<Rightarrow> nat \<Rightarrow> nat" where
  "days_in_month y m =
     (if m = 2 then (if is_leap_year y then 29 else 28)
      else if m = 4 \<or> m = 6 \<or> m = 9 \<or> m = 11 then 30 else 31)"

text \<open>What every pandas Timestamp satisfies.\<close>

definition ts_valid :: "timestamp \<Rightarrow> bool" where
  "ts_valid t =
     (1 \<le> month t \<and> month t \<le> 12 \<and> 1 \<le> day t \<and> day t \<le> days_in_month (year t) (month t)
      \<and> nanos t < 86400000000000)"

text \<open>
  \<open>ts + pd.DateOffset(months=n)\<close>: the month moves on by \<open>n\<close>, carrying into the year; the
  day is clipped to the last day of the month reached; the time of day is kept.
\<close>

definition add_months :: "timestamp \<Rightarrow> nat \<Rightarrow> timestamp" where
  "add_months t n =
     (let m0 = month t - 1 + n;
          y = year t + int (m0 div 12);
          m = m0 mod 12 + 1
      in \<lparr>year = y, month = m, day = min (day t) (days_in_month y m), nanos = nanos t\<rparr>)"

subsection \<open>Tables\<close>

record price_row =
  Date :: timestamp
  Commodity_Name :: "string option"
  Retail_Price :: real

record merged_row = price_row +
  Mean_Price :: "real option"
  Std_Price :: "real option"

record spike_row = merged_row +
  Price_Spike :: bool

record typhoon =
  Typhoon_Name :: string
  Date_Entered_PAR :: "timestamp option"

record lag_row =
  lag_Commodity_Name :: string
  lag_Date :: "timestamp option"
  Lag_Months :: "int option"
  lag_Typhoon_Name :: string

record summary_row =
  sum_Commodity_Name :: string
  lag_mean :: "real option"
  lag_median :: "real option"
  lag_count :: nat

subsection \<open>pandas: aggregations of a column\<close>

text \<open>\<open>Series.mean()\<close>: NaN on an empty column.\<close>

definition series_mean :: "real list \<Rightarrow> real option" where
  "series_mean xs = (if xs = [] then None else Some (sum_list xs / real (length xs)))"

text \<open>\<open>Series.std()\<close>, with pandas' default \<open>ddof=1\<close>: NaN on fewer than two values.\<close>

definition series_std :: "real list \<Rightarrow> real option" where
  "series_std xs =
     (if length xs \<le> 1 then None
      else Some (sqrt (sum_list (map (\<lambda>x. (x - sum_list xs / real (length xs))\<^sup>2) xs)
                        / real (length xs - 1))))"

text \<open>\<open>Series.min()\<close> of a datetime column: NaT on an empty column.\<close>

definition series_min :: "timestamp list \<Rightarrow> timestamp option" where
  "series_min ds = (case ds of [] \<Rightarrow> None | d # ds' \<Rightarrow> Some (fold ts_min ds' d))"

text \<open>\<open>Series.median()\<close>: the middle value of the sorted column, or the mean of the two
  middle values.\<close>

definition series_median :: "real list \<Rightarrow> real option" where
  "series_median xs =
     (let s = sort xs; n = length xs
      in if n = 0 then None
         else if odd n then Some (s ! (n div 2))
         else Some ((s ! (n div 2 - 1) + s ! (n div 2)) / 2))"

subsection \<open>pandas: groupby\<close>

text \<open>
  \<open>df.groupby(key)\<close> with the defaults \<open>sort=True, dropna=True\<close>: one group per distinct
  non-null key, the groups in ascending key order, the rows of a group in table order.
\<close>

definition group_keys :: "('r \<Rightarrow> string option) \<Rightarrow> 'r list \<Rightarrow> string list" where
  "group_keys key df = sort (remdups (List.map_filter key df))"

definition group_of :: "('r \<Rightarrow> string option) \<Rightarrow> ('r \<Rightarrow> 'v) \<Rightarrow> 'r list \<Rightarrow> string \<Rightarrow> 'v list" where
  "group_of key val df k = map val (filter (\<lambda>r. key r = Some k) df)"

text \<open>\<open>df.groupby(key)[val].agg(f).reset_index()\<close>\<close>

definition groupby_agg ::
  "('r \<Rightarrow> string option) \<Rightarrow> ('r \<Rightarrow> 'v) \<Rightarrow> ('v list \<Rightarrow> 'a) \<Rightarrow> 'r list \<Rightarrow> (string \<times> 'a) list" where
  "groupby_agg key val f df = map (\<lambda>k. (k, f (group_of key val df k))) (group_keys key df)"

subsection \<open>Price spikes (lines 430 to 437)\<close>

text \<open>\<open>stats = df.groupby("Commodity_Name")["Retail_Price"].agg(["mean", "std"])\<close>, with the
  columns renamed to Mean_Price and Std_Price.\<close>

definition stats :: "price_row list \<Rightarrow> (string \<times> real option \<times> real option) list" where
  "stats df = groupby_agg Commodity_Name Retail_Price (\<lambda>x. (series_mean x, series_std x)) df"

text \<open>
  \<open>df.merge(stats, on="Commodity_Name", how="left")\<close>: every row of \<open>df\<close>, in order, once for
  each row of \<open>stats\<close> with the same key, and once with null statistics when there is none.
\<close>

definition merge_left ::
  "price_row list \<Rightarrow> (string \<times> real option \<times> real option) list \<Rightarrow> merged_row list" where
  "merge_left df st =
     concat (map (\<lambda>r.
       case filter (\<lambda>s. Commodity_Name r = Some (fst s)) st of
         [] \<Rightarrow> [\<lparr>Date = Date r, Commodity_Name = Commodity_Name r,
                 Retail_Price = Retail_Price r, Mean_Price = None, Std_Price = None\<rparr>]
       | ms \<Rightarrow> map (\<lambda>s. \<lparr>Date = Date r, Commodity_Name = Commodity_Name r,
                           Retail_Price = Retail_Price r,
                           Mean_Price = fst (snd s), Std_Price = snd (snd s)\<rparr>) ms) df)"

text \<open>Float arithmetic with NaN: a sum or product with NaN is NaN, a comparison with NaN
  is False.\<close>

definition nan_add :: "real option \<Rightarrow> real option \<Rightarrow> real option" where
  "nan_add a b = (case a of None \<Rightarrow> None | Some x \<Rightarrow> (case b of None \<Rightarrow> None | Some y \<Rightarrow> Some (x + y)))"

definition nan_scale :: "real \<Rightarrow> real option \<Rightarrow> real option" where
  "nan_scale c a = (case a of None \<Rightarrow> None | Some x \<Rightarrow> Some (c * x))"

definition nan_gt :: "real \<Rightarrow> real option \<Rightarrow> bool" where
  "nan_gt p a = (case a of None \<Rightarrow> False | Some x \<Rightarrow> p > x)"

text \<open>\<open>df["Retail_Price"] > (df["Mean_Price"] + 1.5 * df["Std_Price"])\<close>, on one row.\<close>

definition spike_flag :: "real \<Rightarrow> real option \<Rightarrow> real option \<Rightarrow> bool" where
  "spike_flag p m s = nan_gt p (nan_add m (nan_scale (3 / 2) s))"

definition add_price_spike :: "merged_row list \<Rightarrow> spike_row list" where
  "add_price_spike df =
     map (\<lambda>r. \<lparr>Date = Date r, Commodity_Name = Commodity_Name r, Retail_Price = Retail_Price r,
               Mean_Price = Mean_Price r, Std_Price = Std_Price r,
               Price_Spike = spike_flag (Retail_Price r) (Mean_Price r) (Std_Price r)\<rparr>) df"

definition price_spike_section :: "price_row list \<Rightarrow> spike_row list" where
  "price_spike_section df = add_price_spike (merge_left df (stats df))"

subsection \<open>The second spike computation (line 512)\<close>



subsection \<open>Lag between a typhoon and the first spike (lines 560 to 593)\<close>

definition spikes_after :: "timestamp \<Rightarrow> spike_row list \<Rightarrow> spike_row list" where
  "spikes_after ty_date df =
     filter (\<lambda>r. Price_Spike r = True \<and> ts_le ty_date (Date r)
                 \<and> ts_le (Date r) (add_months ty_date 2)) df"

text \<open>The month difference of lines 580 to 583; NaN where the date is NaT.\<close>

definition lag_months :: "timestamp \<Rightarrow> timestamp option \<Rightarrow> int option" where
  "lag_months ty_date d =
     (case d of None \<Rightarrow> None
      | Some fd \<Rightarrow> Some ((year fd - year ty_date) * 12 + (int (month fd) - int (month ty_date))))"

definition first_spikes :: "string \<Rightarrow> timestamp \<Rightarrow> spike_row list \<Rightarrow> lag_row list" where
  "first_spikes ty_name ty_date sa =
     map (\<lambda>(c, d). \<lparr>lag_Commodity_Name = c, lag_Date = d, Lag_Months = lag_months ty_date d,
                    lag_Typhoon_Name = ty_name\<rparr>)
         (groupby_agg Commodity_Name Date series_min sa)"

text \<open>The loop over \<open>df_typhoons.iterrows()\<close>, returning the list \<open>lags\<close> of tables.\<close>

fun lags_loop :: "typhoon list \<Rightarrow> spike_row list \<Rightarrow> lag_row list list" where
  "lags_loop [] df = []"
| "lags_loop (ty # tys) df =
     (case Date_Entered_PAR ty of
        None \<Rightarrow> lags_loop tys df
      | Some ty_date \<Rightarrow>
          (let sa = spikes_after ty_date df
           in if sa \<noteq> [] then first_spikes (Typhoon_Name ty) ty_date sa # lags_loop tys df
              else lags_loop tys df))"

text \<open>\<open>agg(["mean", "median", "count"])\<close> of one group of Lag_Months: nulls are skipped.\<close>

definition lag_agg :: "int option list \<Rightarrow> real option \<times> real option \<times> nat" where
  "lag_agg ls =
     (let xs = map real_of_int (List.map_filter id ls)
      in (series_mean xs, series_median xs, length xs))"

text \<open>\<open>sort_values("mean")\<close>: ascending, NaN last. pandas does not fix the order of rows
  with equal means; the model keeps them in their former order.\<close>

fun mean_le :: "real option \<Rightarrow> real option \<Rightarrow> bool" where
  "mean_le a None = True"
| "mean_le None (Some b) = False"
| "mean_le (Some a) (Some b) = (a \<le> b)"

fun insert_by_mean :: "summary_row \<Rightarrow> summary_row list \<Rightarrow> summary_row list" where
  "insert_by_mean r [] = [r]"
| "insert_by_mean r (s # ss) =
     (if mean_le (lag_mean r) (lag_mean s) then r # s # ss else s # insert_by_mean r ss)"

definition sort_values_mean :: "summary_row list \<Rightarrow> summary_row list" where
  "sort_values_mean ss = foldr insert_by_mean ss []"

definition lag_summary :: "lag_row list \<Rightarrow> summary_row list" where
  "lag_summary df_lag =
     sort_values_mean
       (map (\<lambda>(c, m, md, n). \<lparr>sum_Commodity_Name = c, lag_mean = m, lag_median = md, lag_count = n\<rparr>)
            (groupby_agg (\<lambda>r. Some (lag_Commodity_Name r)) Lag_Months lag_agg df_lag))"

text \<open>
  What the section shows: the warning that the lag cannot be computed (no typhoon table),
  the warning that no lag was detected (\<open>lags\<close> is empty), or \<open>df_lag\<close> and \<open>lag_summary\<close>.
  The second test of line 560, that \<open>df\<close> has the column Price_Spike, holds for every
  table of \<open>spike_row\<close>.
\<close>

datatype lag_output =
    Lag_Unavailable
  | No_Lag_Detected
  | Lag_Tables "lag_row list" "summary_row list"

definition lag_section :: "typhoon list \<Rightarrow> spike_row list \<Rightarrow> lag_output" where
  "lag_section df_typhoons df =
     (if df_typhoons \<noteq> [] then
        (let lags = lags_loop df_typhoons df
         in if lags \<noteq> [] then (let df_lag = concat lags in Lag_Tables df_lag (lag_summary df_lag))
            else No_Lag_Detected)
      else Lag_Unavailable)"

text \<open>The lag records and the summary a run produces: none when a warning is shown.\<close>

fun lag_records :: "lag_output \<Rightarrow> lag_row list" where
  "lag_records (Lag_Tables df_lag s) = df_lag"
| "lag_records _ = []"

fun lag_summary_of :: "lag_output \<Rightarrow> summary_row list" where
  "lag_summary_of (Lag_Tables df_lag s) = s"
| "lag_summary_of _ = []"

subsection \<open>Auxiliary definitions\<close>

text \<open>The statistics a row receives in the merge when the keys of \<open>st\<close> are distinct.\<close>

definition stats_of_row :: "(string \<times> real option \<times> real option) list \<Rightarrow> price_row \<Rightarrow> real option \<times> real option" where
  "stats_of_row st r =
     (case Commodity_Name r of None \<Rightarrow> (None, None)
      | Some k \<Rightarrow> (case map_of st k of None \<Rightarrow> (None, None) | Some v \<Rightarrow> v))"

text \<open>Example tables. The first has a commodity with five observations, one with a single
  observation and a row with a null name; the second is the price list 10, 10, 10, 1000.\<close>

definition ts :: "int \<Rightarrow> nat \<Rightarrow> nat \<Rightarrow> timestamp" where
  "ts y m d = \<lparr>year = y, month = m, day = d, nanos = 0\<rparr>"

definition obs :: "int \<Rightarrow> nat \<Rightarrow> string option \<Rightarrow> real \<Rightarrow> price_row" where
  "obs y m c p = \<lparr>Date = ts y m 1, Commodity_Name = c, Retail_Price = p\<rparr>"

definition ex_prices :: "price_row list" where
  "ex_prices =
     [obs 2021 1 (Some ''Rice'') 40, obs 2021 2 (Some ''Rice'') 42, obs 2021 3 (Some ''Rice'') 42,
      obs 2021 3 (Some ''Corn'') 25, obs 2021 4 (Some ''Rice'') 43, obs 2021 5 None 7,
      obs 2021 7 (Some ''Rice'') 48]"

definition ex_four :: "price_row list" where
  "ex_four =
     [obs 2021 1 (Some ''Rice'') 10, obs 2021 2 (Some ''Rice'') 10, obs 2021 3 (Some ''Rice'') 10,
      obs 2021 4 (Some ''Rice'') 1000]"

text \<open>The dates of the flagged observations of commodity \<open>c\<close> in the window of a typhoon
  that entered at \<open>d\<close>.\<close>

definition window_dates :: "timestamp \<Rightarrow> spike_row list \<Rightarrow> string \<Rightarrow> timestamp set" where
  "window_dates d df c =
     {Date x | x. x \<in> set df \<and> Price_Spike x \<and> Commodity_Name x = Some c
                  \<and> ts_le d (Date x) \<and> ts_le (Date x) (add_months d 2)}"

text \<open>Example typhoons: one followed by a spike a month later, one without a date, one with
  no spike in its window, one followed by a spike two months later.\<close>

definition ex_typhoons :: "typhoon list" where
  "ex_typhoons =
     [\<lparr>Typhoon_Name = ''X'', Date_Entered_PAR = Some (ts 2021 6 1)\<rparr>,
      \<lparr>Typhoon_Name = ''Undated'', Date_Entered_PAR = None\<rparr>,
      \<lparr>Typhoon_Name = ''Quiet'', Date_Entered_PAR = Some (ts 2021 1 15)\<rparr>,
      \<lparr>Typhoon_Name = ''Z'', Date_Entered_PAR = Some (ts 2021 5 20)\<rparr>]"

definition ex_spikes :: "spike_row list" where
  "ex_spikes = price_spike_section ex_prices"

definition flagged :: "int \<Rightarrow> nat \<Rightarrow> string option \<Rightarrow> real \<Rightarrow> real option \<Rightarrow> real option \<Rightarrow> bool \<Rightarrow> spike_row" where
  "flagged y m c p mu sd b =
     \<lparr>Date = ts y m 1, Commodity_Name = c, Retail_Price = p, Mean_Price = mu, Std_Price = sd,
      Price_Spike = b\<rparr>"

section \<open>Properties\<close>

subsection \<open>Monotonicity of the spike flag\<close>

text \<open>
  C5: for fixed statistics of the commodity (mean and standard deviation, either possibly
  null), raising the price of a flagged observation leaves it flagged: the flag can go from
  false to true, never from true to false.
\<close>

theorem spike_flag_monotone:
  "spike_flag p m s \<Longrightarrow> p \<le> p' \<Longrightarrow> spike_flag p' m s"
  by (auto simp: spike_flag_def nan_gt_def nan_add_def nan_scale_def split: option.splits)

theorem spike_flag_monotone_witness:
  "spike_flag 20 (Some 10) (Some 4) \<and> (20::real) \<le> 25 \<and> spike_flag 25 (Some 10) (Some 4)"
proof -
  have a: "spike_flag 20 (Some 10) (Some 4)"
    by (simp add: spike_flag_def nan_gt_def nan_add_def nan_scale_def)
  have b: "(20::real) \<le> 25" by simp
  show ?thesis using a b spike_flag_monotone [OF a b] by simp
qed

subsection \<open>Grouping and merging\<close>

lemma set_map_filter_key: "set (List.map_filter key df) = {k. Some k \<in> key ` set df}"
  by (induction df) (auto simp: List.map_filter_def image_iff)

lemma set_group_keys: "set (group_keys key df) = {k. Some k \<in> key ` set df}"
  by (simp add: group_keys_def set_map_filter_key)

lemma distinct_group_keys: "distinct (group_keys key df)"
  by (simp add: group_keys_def)

lemma sorted_group_keys: "sorted (group_keys key df)"
  by (simp add: group_keys_def)

lemma map_fst_groupby_agg: "map fst (groupby_agg key val f df) = group_keys key df"
  by (simp add: groupby_agg_def comp_def)

lemma map_of_map_key:
  "map_of (map (\<lambda>k. (k, g k)) ks) k = (if k \<in> set ks then Some (g k) else None)"
  by (induction ks) auto

lemma map_of_groupby_agg:
  "map_of (groupby_agg key val f df) k =
     (if Some k \<in> key ` set df then Some (f (group_of key val df k)) else None)"
  by (simp add: groupby_agg_def map_of_map_key set_group_keys)

lemma filter_fst_distinct:
  "distinct (map fst st) \<Longrightarrow>
   filter (\<lambda>s. fst s = k) st = (case map_of st k of None \<Rightarrow> [] | Some v \<Rightarrow> [(k, v)])"
proof (induction st)
  case Nil
  then show ?case by simp
next
  case (Cons a st)
  obtain k' v' where a: "a = (k', v')" by (cases a)
  show ?case
  proof (cases "k' = k")
    case True
    with Cons.prems a have "k \<notin> fst ` set st" by auto
    then have "filter (\<lambda>s. fst s = k) st = []"
      by (auto simp: filter_empty_conv)
    with True a show ?thesis by simp
  next
    case False
    with Cons a show ?thesis by simp
  qed
qed

lemma merge_left_distinct:
  assumes "distinct (map fst st)"
  shows "merge_left df st =
     map (\<lambda>r. \<lparr>Date = Date r, Commodity_Name = Commodity_Name r, Retail_Price = Retail_Price r,
               Mean_Price = fst (stats_of_row st r), Std_Price = snd (stats_of_row st r)\<rparr>) df"
proof -
  have one: "(case filter (\<lambda>s. Commodity_Name r = Some (fst s)) st of
         [] \<Rightarrow> [\<lparr>Date = Date r, Commodity_Name = Commodity_Name r,
                 Retail_Price = Retail_Price r, Mean_Price = None, Std_Price = None\<rparr>]
       | ms \<Rightarrow> map (\<lambda>s. \<lparr>Date = Date r, Commodity_Name = Commodity_Name r,
                           Retail_Price = Retail_Price r,
                           Mean_Price = fst (snd s), Std_Price = snd (snd s)\<rparr>) ms)
       = [\<lparr>Date = Date r, Commodity_Name = Commodity_Name r, Retail_Price = Retail_Price r,
               Mean_Price = fst (stats_of_row st r), Std_Price = snd (stats_of_row st r)\<rparr>]" for r :: price_row
  proof (cases "Commodity_Name r")
    case None
    then have "filter (\<lambda>s. Commodity_Name r = Some (fst s)) st = []"
      by (simp add: filter_empty_conv)
    with None show ?thesis by (simp add: stats_of_row_def)
  next
    case (Some k)
    then have "filter (\<lambda>s. Commodity_Name r = Some (fst s)) st = filter (\<lambda>s. fst s = k) st"
      by (auto intro: filter_cong)
    with Some filter_fst_distinct [OF assms, of k] show ?thesis
      by (simp add: stats_of_row_def split: option.splits)
  qed
  show ?thesis
    unfolding merge_left_def by (induction df) (simp_all add: one)
qed

subsection \<open>The example tables\<close>

lemma sqrt_9: "sqrt 9 = 3"
  by (rule real_sqrt_unique) simp_all

lemma sqrt_245025: "sqrt 245025 = 495"
  by (rule real_sqrt_unique) simp_all

lemma stats_ex_prices:
  "stats ex_prices = [(''Corn'', Some 25, None), (''Rice'', Some 43, Some 3)]"
  by (simp add: stats_def groupby_agg_def group_keys_def group_of_def List.map_filter_def
      ex_prices_def obs_def series_mean_def series_std_def power2_eq_square sqrt_9)

lemma stats_ex_four:
  "stats ex_four = [(''Rice'', Some (515 / 2), Some 495)]"
  by (simp add: stats_def groupby_agg_def group_keys_def group_of_def List.map_filter_def
      ex_four_def obs_def series_mean_def series_std_def power2_eq_square sqrt_245025)

subsection \<open>The spike flag of a row\<close>

lemma price_spike_section_eq:
  "price_spike_section df =
     map (\<lambda>r. \<lparr>Date = Date r, Commodity_Name = Commodity_Name r, Retail_Price = Retail_Price r,
               Mean_Price = fst (stats_of_row (stats df) r),
               Std_Price = snd (stats_of_row (stats df) r),
               Price_Spike = spike_flag (Retail_Price r) (fst (stats_of_row (stats df) r))
                               (snd (stats_of_row (stats df) r))\<rparr>) df"
proof -
  have "distinct (map fst (stats df))"
    by (simp add: stats_def map_fst_groupby_agg distinct_group_keys)
  then show ?thesis
    by (simp add: price_spike_section_def add_price_spike_def merge_left_distinct comp_def)
qed

lemma spike_flag_iff:
  "spike_flag p a b = (\<exists>m s. a = Some m \<and> b = Some s \<and> p > m + 3 / 2 * s)"
  by (auto simp: spike_flag_def nan_gt_def nan_add_def nan_scale_def split: option.splits)

lemma stats_lookup:
  "map_of (stats df) k =
     (if Some k \<in> Commodity_Name ` set df
      then Some (series_mean (group_of Commodity_Name Retail_Price df k),
                 series_std (group_of Commodity_Name Retail_Price df k))
      else None)"
  by (simp add: stats_def map_of_groupby_agg)

lemma stats_of_row_iff:
  "stats_of_row st r = (Some m, Some s) \<longleftrightarrow>
     (\<exists>k. Commodity_Name r = Some k \<and> map_of st k = Some (Some m, Some s))"
  by (auto simp: stats_of_row_def split: option.splits)

text \<open>
  C1: the section keeps the rows of the price table, in order, and the flag of a row is true
  exactly when the row has a commodity whose statistics have a non-null mean and a non-null
  standard deviation with \<open>Retail_Price > Mean_Price + 1.5 * Std_Price\<close>. In every
  other case (a null standard deviation of a commodity observed once, a null name) it is false.
\<close>

theorem price_spike_iff:
  assumes "i < length df"
  shows "length (price_spike_section df) = length df \<and>
         Retail_Price (price_spike_section df ! i) = Retail_Price (df ! i) \<and>
         Commodity_Name (price_spike_section df ! i) = Commodity_Name (df ! i) \<and>
         Date (price_spike_section df ! i) = Date (df ! i) \<and>
         Price_Spike (price_spike_section df ! i) =
           (\<exists>k m s. Commodity_Name (df ! i) = Some k
                    \<and> map_of (stats df) k = Some (Some m, Some s)
                    \<and> Retail_Price (df ! i) > m + 3 / 2 * s)"
proof -
  have flag: "spike_flag (Retail_Price r) (fst (stats_of_row st r)) (snd (stats_of_row st r)) =
          (\<exists>k m s. Commodity_Name r = Some k \<and> map_of st k = Some (Some m, Some s)
                   \<and> Retail_Price r > m + 3 / 2 * s)" for r :: price_row and st
    by (auto simp: spike_flag_iff stats_of_row_def split: option.splits)
  have len: "length (price_spike_section df) = length df"
    by (simp add: price_spike_section_eq)
  have nth: "price_spike_section df ! i =
     \<lparr>Date = Date (df ! i), Commodity_Name = Commodity_Name (df ! i), Retail_Price = Retail_Price (df ! i),
               Mean_Price = fst (stats_of_row (stats df) (df ! i)),
               Std_Price = snd (stats_of_row (stats df) (df ! i)),
               Price_Spike = spike_flag (Retail_Price (df ! i)) (fst (stats_of_row (stats df) (df ! i)))
                               (snd (stats_of_row (stats df) (df ! i)))\<rparr>"
    using assms by (simp add: price_spike_section_eq)
  show ?thesis
    unfolding nth using len flag [of "df ! i" "stats df"] by simp
qed

theorem price_spike_iff_witness:
  "6 < length ex_prices \<and> Price_Spike (price_spike_section ex_prices ! 6) \<and>
   3 < length ex_prices \<and> \<not> Price_Spike (price_spike_section ex_prices ! 3)"
proof -
  have l6: "6 < length ex_prices" and l3: "3 < length ex_prices"
    by (simp_all add: ex_prices_def)
  have r6: "Commodity_Name (ex_prices ! 6) = Some ''Rice''" "Retail_Price (ex_prices ! 6) = 48"
    and r3: "Commodity_Name (ex_prices ! 3) = Some ''Corn''"
    by (simp_all add: ex_prices_def obs_def)
  from price_spike_iff [OF l6] r6 have "Price_Spike (price_spike_section ex_prices ! 6)"
    by (simp add: stats_ex_prices)
  moreover from price_spike_iff [OF l3] r3 have "\<not> Price_Spike (price_spike_section ex_prices ! 3)"
    by (simp add: stats_ex_prices)
  ultimately show ?thesis using l6 l3 by simp
qed

subsection \<open>Statistics of a commodity\<close>

text \<open>
  C2: \<open>stats\<close> has one row for each distinct non-null commodity name of the price table
  and no other row. The row of a commodity holds the arithmetic mean of its retail prices
  and, when it has at least two observations, their sample standard deviation (divisor
  \<open>n - 1\<close>); with a single observation the standard deviation is null.
\<close>

theorem stats_correct:
  "distinct (map fst (stats df)) \<and>
   set (map fst (stats df)) = {k. Some k \<in> Commodity_Name ` set df} \<and>
   (\<forall>k. Some k \<in> Commodity_Name ` set df \<longrightarrow>
      (let xs = map Retail_Price (filter (\<lambda>r. Commodity_Name r = Some k) df);
           n = length xs;
           mu = sum_list xs / real n
       in 1 \<le> n \<and>
          map_of (stats df) k =
            Some (Some mu,
                  if 2 \<le> n then Some (sqrt ((\<Sum>x\<leftarrow>xs. (x - mu)\<^sup>2) / real (n - 1))) else None)))"
proof -
  have d: "distinct (map fst (stats df))"
    by (simp add: stats_def map_fst_groupby_agg distinct_group_keys)
  have s: "set (map fst (stats df)) = {k. Some k \<in> Commodity_Name ` set df}"
    by (simp only: stats_def map_fst_groupby_agg set_group_keys)
  have g: "Some k \<in> Commodity_Name ` set df \<Longrightarrow>
      (let xs = map Retail_Price (filter (\<lambda>r. Commodity_Name r = Some k) df);
           n = length xs;
           mu = sum_list xs / real n
       in 1 \<le> n \<and>
          map_of (stats df) k =
            Some (Some mu,
                  if 2 \<le> n then Some (sqrt ((\<Sum>x\<leftarrow>xs. (x - mu)\<^sup>2) / real (n - 1))) else None))" for k
  proof -
    assume k: "Some k \<in> Commodity_Name ` set df"
    then obtain r where "r \<in> set df" "Commodity_Name r = Some k"
      by (auto simp: image_iff)
    then have "filter (\<lambda>r. Commodity_Name r = Some k) df \<noteq> []"
      by (auto simp: filter_empty_conv)
    then have ne: "map Retail_Price (filter (\<lambda>r. Commodity_Name r = Some k) df) \<noteq> []"
      by simp
    then have "1 \<le> length (map Retail_Price (filter (\<lambda>r. Commodity_Name r = Some k) df))"
      by (simp add: Suc_le_eq del: length_map)
    with k ne show ?thesis
      unfolding Let_def stats_lookup group_of_def series_mean_def series_std_def
      by (auto simp del: length_map)
  qed
  from d s g show ?thesis by blast
qed

theorem stats_correct_witness:
  "Some ''Rice'' \<in> Commodity_Name ` set ex_prices \<and>
   map_of (stats ex_prices) ''Rice'' = Some (Some 43, Some 3) \<and>
   Some ''Corn'' \<in> Commodity_Name ` set ex_prices \<and>
   map_of (stats ex_prices) ''Corn'' = Some (Some 25, None)"
proof -
  have rice: "Some ''Rice'' \<in> Commodity_Name ` set ex_prices"
    and corn: "Some ''Corn'' \<in> Commodity_Name ` set ex_prices"
    by (simp_all add: ex_prices_def obs_def)
  from stats_correct [of ex_prices] rice
  have "let xs = map Retail_Price (filter (\<lambda>r. Commodity_Name r = Some ''Rice'') ex_prices);
           n = length xs;
           mu = sum_list xs / real n
       in 1 \<le> n \<and>
          map_of (stats ex_prices) ''Rice'' =
            Some (Some mu,
                  if 2 \<le> n then Some (sqrt ((\<Sum>x\<leftarrow>xs. (x - mu)\<^sup>2) / real (n - 1))) else None)"
    by blast
  then have a: "map_of (stats ex_prices) ''Rice'' = Some (Some 43, Some 3)"
    by (simp add: ex_prices_def obs_def Let_def power2_eq_square sqrt_9)
  from stats_correct [of ex_prices] corn
  have "let xs = map Retail_Price (filter (\<lambda>r. Commodity_Name r = Some ''Corn'') ex_prices);
           n = length xs;
           mu = sum_list xs / real n
       in 1 \<le> n \<and>
          map_of (stats ex_prices) ''Corn'' =
            Some (Some mu,
                  if 2 \<le> n then Some (sqrt ((\<Sum>x\<leftarrow>xs. (x - mu)\<^sup>2) / real (n - 1))) else None)"
    by blast
  then have b: "map_of (stats ex_prices) ''Corn'' = Some (Some 25, None)"
    by (simp add: ex_prices_def obs_def Let_def)
  from rice corn a b show ?thesis by simp
qed

subsection \<open>The two spike computations\<close>



subsection \<open>The price list 10, 10, 10, 1000\<close>

lemma section_ex_four:
  "map (\<lambda>r. (Mean_Price r, Std_Price r, Price_Spike r)) (price_spike_section ex_four) =
     [(Some (515 / 2), Some 495, False), (Some (515 / 2), Some 495, False),
      (Some (515 / 2), Some 495, False), (Some (515 / 2), Some 495, False)]"
  unfolding price_spike_section_eq stats_ex_four
  by (simp add: stats_of_row_def ex_four_def obs_def
      spike_flag_def nan_gt_def nan_add_def nan_scale_def)

text \<open>
  C4, as stated, fails: for the price list 10, 10, 10, 1000 the observation with price 1000
  is not flagged.
\<close>

theorem four_prices_counterexample:
  "\<not> Price_Spike (price_spike_section ex_four ! 3)"
proof -
  have "map (\<lambda>r. (Mean_Price r, Std_Price r, Price_Spike r)) (price_spike_section ex_four) ! 3
          = (Some (515 / 2), Some 495, False)"
    by (simp only: section_ex_four) simp
  moreover have "3 < length (price_spike_section ex_four)"
    by (simp add: price_spike_section_eq ex_four_def)
  ultimately show ?thesis by simp
qed

text \<open>
  C4, amended: for the price list 10, 10, 10, 1000 the mean is 257.5, the sample standard
  deviation is exactly 495 and the threshold is exactly 1000; the comparison is strict, so
  no observation is flagged, the one with price 1000 included.
\<close>

theorem four_prices_threshold:
  "map_of (stats ex_four) ''Rice'' = Some (Some (515 / 2), Some 495) \<and>
   nan_add (Some (515 / 2)) (nan_scale (3 / 2) (Some 495)) = Some 1000 \<and>
   map Retail_Price ex_four = [10, 10, 10, 1000] \<and>
   map Price_Spike (price_spike_section ex_four) = [False, False, False, False]"
proof -
  have "map Price_Spike (price_spike_section ex_four)
        = map (\<lambda>t. snd (snd t)) (map (\<lambda>r. (Mean_Price r, Std_Price r, Price_Spike r)) (price_spike_section ex_four))"
    by (simp add: comp_def)
  then have flags: "map Price_Spike (price_spike_section ex_four) = [False, False, False, False]"
    by (simp only: section_ex_four) simp
  have st: "map_of (stats ex_four) ''Rice'' = Some (Some (515 / 2), Some 495)"
    by (simp add: stats_ex_four)
  have thr: "nan_add (Some (515 / 2)) (nan_scale (3 / 2) (Some 495)) = Some 1000"
    by (simp add: nan_add_def nan_scale_def)
  have prices: "map Retail_Price ex_four = [10, 10, 10, 1000]"
    by (simp add: ex_four_def obs_def)
  from st thr prices flags show ?thesis by (intro conjI)
qed

subsection \<open>Order of timestamps and the loop over the typhoons\<close>

lemma ts_le_refl: "ts_le a a"
  by (simp add: ts_le_def)

lemma ts_le_total: "ts_le a b \<or> ts_le b a"
  by (auto simp: ts_le_def)

lemma ts_le_trans: "ts_le a b \<Longrightarrow> ts_le b c \<Longrightarrow> ts_le a c"
  unfolding ts_le_def by (elim disjE conjE) simp_all

lemma ts_le_antisym: "ts_le a b \<Longrightarrow> ts_le b a \<Longrightarrow> a = b"
  by (cases a, cases b) (auto simp: ts_le_def)

lemma ts_min_le: "ts_le (ts_min a b) a \<and> ts_le (ts_min a b) b"
  using ts_le_total [of a b] by (auto simp: ts_min_def ts_le_refl)

lemma fold_ts_min_in: "fold ts_min ds d \<in> set (d # ds)"
  by (induction ds arbitrary: d) (auto simp: ts_min_def)

lemma fold_ts_min_le_init: "ts_le (fold ts_min ds d) d"
proof (induction ds arbitrary: d)
  case Nil
  show ?case by (simp add: ts_le_refl)
next
  case (Cons a ds)
  have "ts_le (fold ts_min ds (ts_min a d)) (ts_min a d)" by (rule Cons.IH)
  moreover have "ts_le (ts_min a d) d" using ts_min_le [of a d] by simp
  ultimately show ?case by (simp add: ts_le_trans)
qed

lemma fold_ts_min_le: "x \<in> set (d # ds) \<Longrightarrow> ts_le (fold ts_min ds d) x"
proof (induction ds arbitrary: d)
  case Nil
  then show ?case by (simp add: ts_le_refl)
next
  case (Cons a ds)
  show ?case
  proof (cases "x \<in> set (ts_min a d # ds)")
    case True
    then show ?thesis using Cons.IH [of "ts_min a d"] by simp
  next
    case False
    with Cons.prems have x: "x = a \<or> x = d" by auto
    have "ts_le (fold ts_min ds (ts_min a d)) (ts_min a d)" by (rule fold_ts_min_le_init)
    moreover have "ts_le (ts_min a d) x" using x ts_min_le [of a d] by auto
    ultimately show ?thesis by (simp add: ts_le_trans)
  qed
qed

lemma series_min_nonempty:
  assumes "ds \<noteq> []"
  shows "\<exists>m. series_min ds = Some m \<and> m \<in> set ds \<and> (\<forall>x \<in> set ds. ts_le m x)"
proof (cases ds)
  case Nil
  with assms show ?thesis by simp
next
  case (Cons d ds')
  then show ?thesis
    using fold_ts_min_in [of ds' d] fold_ts_min_le [of _ d ds']
    by (simp add: series_min_def)
qed

lemma lag_records_section: "lag_records (lag_section tys df) = concat (lags_loop tys df)"
  by (simp add: lag_section_def Let_def)

lemma first_spikes_empty: "first_spikes n d [] = []"
  by (simp add: first_spikes_def groupby_agg_def group_keys_def List.map_filter_def)

lemma set_concat_lags_loop:
  "set (concat (lags_loop tys df)) =
     (\<Union>ty \<in> set tys. case Date_Entered_PAR ty of None \<Rightarrow> {}
         | Some d \<Rightarrow> set (first_spikes (Typhoon_Name ty) d (spikes_after d df)))"
proof (induction tys)
  case Nil
  show ?case by simp
next
  case (Cons ty tys)
  show ?case
  proof (cases "Date_Entered_PAR ty")
    case None
    with Cons show ?thesis by simp
  next
    case (Some d)
    with Cons show ?thesis
      by (cases "spikes_after d df = []") (simp_all add: Let_def first_spikes_empty)
  qed
qed

lemma set_first_spikes:
  "set (first_spikes n d sa) =
     {\<lparr>lag_Commodity_Name = c, lag_Date = series_min (group_of Commodity_Name Date sa c),
        Lag_Months = lag_months d (series_min (group_of Commodity_Name Date sa c)),
        lag_Typhoon_Name = n\<rparr> | c. Some c \<in> Commodity_Name ` set sa}"
  by (auto simp: first_spikes_def groupby_agg_def set_group_keys image_iff)

lemma set_group_spikes:
  "set (group_of Commodity_Name Date (spikes_after d df) c) = window_dates d df c"
  by (auto simp: group_of_def spikes_after_def window_dates_def)

lemma key_in_spikes_after:
  "Some c \<in> Commodity_Name ` set (spikes_after d df) \<longleftrightarrow> window_dates d df c \<noteq> {}"
  by (auto simp: spikes_after_def window_dates_def image_iff)

lemma series_min_window:
  "series_min (group_of Commodity_Name Date (spikes_after d df) c) = Some fd \<longleftrightarrow>
     fd \<in> window_dates d df c \<and> (\<forall>y \<in> window_dates d df c. ts_le fd y)"
proof (cases "group_of Commodity_Name Date (spikes_after d df) c = []")
  case True
  then have "window_dates d df c = {}"
    using set_group_spikes [of d df c] by simp
  with True show ?thesis by (simp add: series_min_def)
next
  case False
  from series_min_nonempty [OF False] obtain m where
    m: "series_min (group_of Commodity_Name Date (spikes_after d df) c) = Some m"
       "m \<in> window_dates d df c" "\<forall>x \<in> window_dates d df c. ts_le m x"
    by (auto simp: set_group_spikes)
  show ?thesis
  proof
    assume "series_min (group_of Commodity_Name Date (spikes_after d df) c) = Some fd"
    with m show "fd \<in> window_dates d df c \<and> (\<forall>y \<in> window_dates d df c. ts_le fd y)"
      by simp
  next
    assume fd: "fd \<in> window_dates d df c \<and> (\<forall>y \<in> window_dates d df c. ts_le fd y)"
    with m have "ts_le m fd" "ts_le fd m" by auto
    then have "m = fd" by (rule ts_le_antisym)
    with m show "series_min (group_of Commodity_Name Date (spikes_after d df) c) = Some fd"
      by simp
  qed
qed

lemma in_first_spikes:
  "r \<in> set (first_spikes n d (spikes_after d df)) \<longleftrightarrow>
     lag_Typhoon_Name r = n \<and>
     (\<exists>fd. lag_Date r = Some fd \<and> fd \<in> window_dates d df (lag_Commodity_Name r)
           \<and> (\<forall>y \<in> window_dates d df (lag_Commodity_Name r). ts_le fd y)
           \<and> Lag_Months r = Some ((year fd - year d) * 12 + (int (month fd) - int (month d))))"
  (is "?L \<longleftrightarrow> ?R")
proof
  assume ?L
  then obtain c where c: "window_dates d df c \<noteq> {}"
    and r: "r = \<lparr>lag_Commodity_Name = c,
                 lag_Date = series_min (group_of Commodity_Name Date (spikes_after d df) c),
                 Lag_Months = lag_months d (series_min (group_of Commodity_Name Date (spikes_after d df) c)),
                 lag_Typhoon_Name = n\<rparr>"
    unfolding set_first_spikes key_in_spikes_after by blast
  from c have "group_of Commodity_Name Date (spikes_after d df) c \<noteq> []"
    using set_group_spikes [of d df c] by auto
  from series_min_nonempty [OF this] obtain m where
    m: "series_min (group_of Commodity_Name Date (spikes_after d df) c) = Some m"
    by blast
  with series_min_window [of d df c m]
  have "m \<in> window_dates d df c \<and> (\<forall>y \<in> window_dates d df c. ts_le m y)" by simp
  with r m show ?R by (simp add: lag_months_def)
next
  assume R: ?R
  then obtain fd where fd: "lag_Date r = Some fd" "fd \<in> window_dates d df (lag_Commodity_Name r)"
      "\<forall>y \<in> window_dates d df (lag_Commodity_Name r). ts_le fd y"
      "Lag_Months r = Some ((year fd - year d) * 12 + (int (month fd) - int (month d)))"
    by blast
  from fd(2,3) have sm: "series_min (group_of Commodity_Name Date (spikes_after d df) (lag_Commodity_Name r)) = Some fd"
    by (simp add: series_min_window)
  from fd(2) have ne: "window_dates d df (lag_Commodity_Name r) \<noteq> {}" by auto
  have "r = \<lparr>lag_Commodity_Name = lag_Commodity_Name r,
                 lag_Date = series_min (group_of Commodity_Name Date (spikes_after d df) (lag_Commodity_Name r)),
                 Lag_Months = lag_months d (series_min (group_of Commodity_Name Date (spikes_after d df) (lag_Commodity_Name r))),
                 lag_Typhoon_Name = n\<rparr>"
    using R fd sm by (simp add: lag_months_def)
  with ne show ?L
    unfolding set_first_spikes key_in_spikes_after by blast
qed

subsection \<open>The example typhoons\<close>

lemma ex_spikes_rows:
  "ex_spikes =
     [flagged 2021 1 (Some ''Rice'') 40 (Some 43) (Some 3) False,
      flagged 2021 2 (Some ''Rice'') 42 (Some 43) (Some 3) False,
      flagged 2021 3 (Some ''Rice'') 42 (Some 43) (Some 3) False,
      flagged 2021 3 (Some ''Corn'') 25 (Some 25) None False,
      flagged 2021 4 (Some ''Rice'') 43 (Some 43) (Some 3) False,
      flagged 2021 5 None 7 None None False,
      flagged 2021 7 (Some ''Rice'') 48 (Some 43) (Some 3) True]"
  unfolding ex_spikes_def price_spike_section_eq stats_ex_prices
  by (simp add: stats_of_row_def ex_prices_def obs_def flagged_def
      spike_flag_def nan_gt_def nan_add_def nan_scale_def)

lemma ex_lags_loop:
  "lags_loop ex_typhoons ex_spikes =
     [ [\<lparr>lag_Commodity_Name = ''Rice'', lag_Date = Some (ts 2021 7 1), Lag_Months = Some 1,
        lag_Typhoon_Name = ''X''\<rparr>],
      [\<lparr>lag_Commodity_Name = ''Rice'', lag_Date = Some (ts 2021 7 1), Lag_Months = Some 2,
        lag_Typhoon_Name = ''Z''\<rparr>] ]"
  unfolding ex_spikes_rows
  by (simp add: ex_typhoons_def flagged_def ts_def spikes_after_def ts_le_def add_months_def
      days_in_month_def is_leap_year_def first_spikes_def groupby_agg_def group_keys_def
      group_of_def List.map_filter_def series_min_def lag_months_def Let_def)

lemma ex_lag_summary:
  "lag_summary
     [\<lparr>lag_Commodity_Name = ''Rice'', lag_Date = Some (ts 2021 7 1), Lag_Months = Some 1,
        lag_Typhoon_Name = ''X''\<rparr>,
      \<lparr>lag_Commodity_Name = ''Rice'', lag_Date = Some (ts 2021 7 1), Lag_Months = Some 2,
        lag_Typhoon_Name = ''Z''\<rparr>]
   = [\<lparr>sum_Commodity_Name = ''Rice'', lag_mean = Some (3 / 2), lag_median = Some (3 / 2),
       lag_count = 2\<rparr>]"
  by (simp add: lag_summary_def sort_values_mean_def groupby_agg_def group_keys_def
      group_of_def List.map_filter_def lag_agg_def series_mean_def series_median_def Let_def)

lemma ex_lag_section:
  "lag_section ex_typhoons ex_spikes =
     Lag_Tables
       [\<lparr>lag_Commodity_Name = ''Rice'', lag_Date = Some (ts 2021 7 1), Lag_Months = Some 1,
          lag_Typhoon_Name = ''X''\<rparr>,
        \<lparr>lag_Commodity_Name = ''Rice'', lag_Date = Some (ts 2021 7 1), Lag_Months = Some 2,
          lag_Typhoon_Name = ''Z''\<rparr>]
       [\<lparr>sum_Commodity_Name = ''Rice'', lag_mean = Some (3 / 2), lag_median = Some (3 / 2),
          lag_count = 2\<rparr>]"
proof -
  have ne: "ex_typhoons \<noteq> []" by (simp add: ex_typhoons_def)
  have l: "lags_loop ex_typhoons ex_spikes \<noteq> []"
    unfolding ex_lags_loop by simp
  have c: "concat (lags_loop ex_typhoons ex_spikes) =
       [\<lparr>lag_Commodity_Name = ''Rice'', lag_Date = Some (ts 2021 7 1), Lag_Months = Some 1,
          lag_Typhoon_Name = ''X''\<rparr>,
        \<lparr>lag_Commodity_Name = ''Rice'', lag_Date = Some (ts 2021 7 1), Lag_Months = Some 2,
          lag_Typhoon_Name = ''Z''\<rparr>]"
    unfolding ex_lags_loop by simp
  show ?thesis
    unfolding lag_section_def Let_def c ex_lag_summary using ne l by simp
qed

lemma ex_valid:
  "\<forall>x \<in> set ex_spikes. ts_valid (Date x)"
  "\<forall>ty \<in> set ex_typhoons. \<forall>d. Date_Entered_PAR ty = Some d \<longrightarrow> ts_valid d"
  unfolding ex_spikes_rows
  by (simp_all add: ex_typhoons_def flagged_def ts_def ts_valid_def days_in_month_def)

lemma ex_record_X:
  "\<lparr>lag_Commodity_Name = ''Rice'', lag_Date = Some (ts 2021 7 1), Lag_Months = Some 1,
     lag_Typhoon_Name = ''X''\<rparr> \<in> set (lag_records (lag_section ex_typhoons ex_spikes))"
  unfolding ex_lag_section by simp

subsection \<open>The lag records\<close>

text \<open>
  C3: a lag record is emitted exactly for a typhoon with a non-null date \<open>d\<close> and a
  commodity with a flagged observation dated in the closed window from \<open>d\<close> to \<open>d\<close> plus
  two calendar months; its date is the earliest such date of the commodity and its lag is
  the month difference \<open>(year fd - year d) * 12 + (month fd - month d)\<close>. A typhoon with a
  null date, or with no flagged observation in its window, contributes no record.
\<close>

theorem lag_records_iff:
  "r \<in> set (lag_records (lag_section df_typhoons df)) \<longleftrightarrow>
     (\<exists>ty \<in> set df_typhoons. \<exists>d fd.
        Date_Entered_PAR ty = Some d \<and>
        lag_Typhoon_Name r = Typhoon_Name ty \<and>
        lag_Date r = Some fd \<and>
        (\<exists>x \<in> set df. Price_Spike x \<and> Commodity_Name x = Some (lag_Commodity_Name r)
                       \<and> ts_le d (Date x) \<and> ts_le (Date x) (add_months d 2) \<and> Date x = fd) \<and>
        (\<forall>x \<in> set df. Price_Spike x \<and> Commodity_Name x = Some (lag_Commodity_Name r)
                       \<and> ts_le d (Date x) \<and> ts_le (Date x) (add_months d 2) \<longrightarrow> ts_le fd (Date x)) \<and>
        Lag_Months r = Some ((year fd - year d) * 12 + (int (month fd) - int (month d))))"
proof -
  have w1: "fd \<in> window_dates d df c \<longleftrightarrow>
      (\<exists>x \<in> set df. Price_Spike x \<and> Commodity_Name x = Some c
                       \<and> ts_le d (Date x) \<and> ts_le (Date x) (add_months d 2) \<and> Date x = fd)" for fd d c
    by (auto simp: window_dates_def)
  have w2: "(\<forall>y \<in> window_dates d df c. ts_le fd y) \<longleftrightarrow>
      (\<forall>x \<in> set df. Price_Spike x \<and> Commodity_Name x = Some c
                       \<and> ts_le d (Date x) \<and> ts_le (Date x) (add_months d 2) \<longrightarrow> ts_le fd (Date x))" for fd d c
    by (auto simp: window_dates_def)
  have "r \<in> set (lag_records (lag_section df_typhoons df)) \<longleftrightarrow>
      (\<exists>ty \<in> set df_typhoons. \<exists>d. Date_Entered_PAR ty = Some d \<and>
          r \<in> set (first_spikes (Typhoon_Name ty) d (spikes_after d df)))"
    unfolding lag_records_section set_concat_lags_loop
    by (auto split: option.splits)
  also have "\<dots> \<longleftrightarrow> (\<exists>ty \<in> set df_typhoons. \<exists>d fd.
        Date_Entered_PAR ty = Some d \<and>
        lag_Typhoon_Name r = Typhoon_Name ty \<and>
        lag_Date r = Some fd \<and> fd \<in> window_dates d df (lag_Commodity_Name r)
           \<and> (\<forall>y \<in> window_dates d df (lag_Commodity_Name r). ts_le fd y)
           \<and> Lag_Months r = Some ((year fd - year d) * 12 + (int (month fd) - int (month d))))"
    unfolding in_first_spikes by blast
  finally show ?thesis
    unfolding w1 w2 .
qed

theorem lag_records_iff_witness:
  "\<lparr>lag_Commodity_Name = ''Rice'', lag_Date = Some (ts 2021 7 1), Lag_Months = Some 1,
     lag_Typhoon_Name = ''X''\<rparr> \<in> set (lag_records (lag_section ex_typhoons ex_spikes)) \<and>
   (\<exists>ty \<in> set ex_typhoons. \<exists>d fd.
        Date_Entered_PAR ty = Some d \<and>
        lag_Typhoon_Name \<lparr>lag_Commodity_Name = ''Rice'', lag_Date = Some (ts 2021 7 1),
                           Lag_Months = Some 1, lag_Typhoon_Name = ''X''\<rparr> = Typhoon_Name ty \<and>
        lag_Date \<lparr>lag_Commodity_Name = ''Rice'', lag_Date = Some (ts 2021 7 1),
                   Lag_Months = Some 1, lag_Typhoon_Name = ''X''\<rparr> = Some fd \<and>
        (\<exists>x \<in> set ex_spikes. Price_Spike x \<and> Commodity_Name x = Some ''Rice''
                       \<and> ts_le d (Date x) \<and> ts_le (Date x) (add_months d 2) \<and> Date x = fd) \<and>
        (\<forall>x \<in> set ex_spikes. Price_Spike x \<and> Commodity_Name x = Some ''Rice''
                       \<and> ts_le d (Date x) \<and> ts_le (Date x) (add_months d 2) \<longrightarrow> ts_le fd (Date x)) \<and>
        (1::int) = (year fd - year d) * 12 + (int (month fd) - int (month d)))"
proof -
  let ?r = "\<lparr>lag_Commodity_Name = ''Rice'', lag_Date = Some (ts 2021 7 1), Lag_Months = Some 1,
     lag_Typhoon_Name = ''X''\<rparr>"
  have m: "?r \<in> set (lag_records (lag_section ex_typhoons ex_spikes))"
    unfolding ex_lag_section by simp
  from iffD1 [OF lag_records_iff m] have
    "\<exists>ty \<in> set ex_typhoons. \<exists>d fd.
        Date_Entered_PAR ty = Some d \<and>
        lag_Typhoon_Name ?r = Typhoon_Name ty \<and>
        lag_Date ?r = Some fd \<and>
        (\<exists>x \<in> set ex_spikes. Price_Spike x \<and> Commodity_Name x = Some ''Rice''
                       \<and> ts_le d (Date x) \<and> ts_le (Date x) (add_months d 2) \<and> Date x = fd) \<and>
        (\<forall>x \<in> set ex_spikes. Price_Spike x \<and> Commodity_Name x = Some ''Rice''
                       \<and> ts_le d (Date x) \<and> ts_le (Date x) (add_months d 2) \<longrightarrow> ts_le fd (Date x)) \<and>
        (1::int) = (year fd - year d) * 12 + (int (month fd) - int (month d))"
    by (simp only: lag_row.simps option.inject)
  with m show ?thesis by (rule conjI)
qed

subsection \<open>Bounds on the lag\<close>

lemma in_lag_records:
  "r \<in> set (lag_records (lag_section df_typhoons df)) \<longleftrightarrow>
      (\<exists>ty \<in> set df_typhoons. \<exists>d. Date_Entered_PAR ty = Some d \<and>
          r \<in> set (first_spikes (Typhoon_Name ty) d (spikes_after d df)))"
  unfolding lag_records_section set_concat_lags_loop
  by (auto split: option.splits)

lemma year_month_le:
  "ts_le a b \<Longrightarrow> year a < year b \<or> (year a = year b \<and> month a \<le> month b)"
  by (auto simp: ts_le_def)

lemma add_months_year_month:
  assumes "1 \<le> month t"
  shows "year (add_months t n) * 12 + int (month (add_months t n)) = year t * 12 + int (month t) + int n"
    and "1 \<le> month (add_months t n)" and "month (add_months t n) \<le> 12"
proof -
  let ?m0 = "month t - 1 + n"
  have "int (?m0 div 12) * 12 + int (?m0 mod 12) = int ?m0"
    by (metis div_mult_mod_eq of_nat_add of_nat_mult of_nat_numeral)
  with assms show "year (add_months t n) * 12 + int (month (add_months t n)) = year t * 12 + int (month t) + int n"
    by (simp add: add_months_def Let_def algebra_simps of_nat_diff)
  show "1 \<le> month (add_months t n)" "month (add_months t n) \<le> 12"
    by (simp_all add: add_months_def Let_def Suc_le_eq)
qed

lemma lag_bounds:
  assumes d: "ts_valid d" and fd: "ts_valid fd"
    and lo: "ts_le d fd" and hi: "ts_le fd (add_months d 2)"
  shows "0 \<le> (year fd - year d) * 12 + (int (month fd) - int (month d))"
    and "(year fd - year d) * 12 + (int (month fd) - int (month d)) \<le> 2"
proof -
  from d have md: "1 \<le> month d" "month d \<le> 12" by (simp_all add: ts_valid_def)
  from fd have mf: "1 \<le> month fd" "month fd \<le> 12" by (simp_all add: ts_valid_def)
  from year_month_le [OF lo] md mf
  show "0 \<le> (year fd - year d) * 12 + (int (month fd) - int (month d))"
    by auto
  let ?e = "add_months d 2"
  have e: "year ?e * 12 + int (month ?e) = year d * 12 + int (month d) + 2"
    "1 \<le> month ?e" "month ?e \<le> 12"
    using add_months_year_month [OF md(1), of 2] by simp_all
  from year_month_le [OF hi] have "year fd * 12 + int (month fd) \<le> year ?e * 12 + int (month ?e)"
    using mf e(2,3) by auto
  with e(1) show "(year fd - year d) * 12 + (int (month fd) - int (month d)) \<le> 2"
    by (simp add: algebra_simps)
qed

lemma lag_record_window:
  assumes "r \<in> set (lag_records (lag_section df_typhoons df))"
  shows "\<exists>ty \<in> set df_typhoons. \<exists>d fd. Date_Entered_PAR ty = Some d \<and>
           (\<exists>x \<in> set df. Date x = fd) \<and> ts_le d fd \<and> ts_le fd (add_months d 2) \<and>
           Lag_Months r = Some ((year fd - year d) * 12 + (int (month fd) - int (month d)))"
proof -
  from assms obtain ty d where ty: "ty \<in> set df_typhoons" "Date_Entered_PAR ty = Some d"
    and r: "r \<in> set (first_spikes (Typhoon_Name ty) d (spikes_after d df))"
    unfolding in_lag_records by blast
  from r obtain fd where fd: "fd \<in> window_dates d df (lag_Commodity_Name r)"
    "Lag_Months r = Some ((year fd - year d) * 12 + (int (month fd) - int (month d)))"
    unfolding in_first_spikes by blast
  from fd(1) have "(\<exists>x \<in> set df. Date x = fd) \<and> ts_le d fd \<and> ts_le fd (add_months d 2)"
    by (auto simp: window_dates_def)
  with ty fd(2) show ?thesis by blast
qed

text \<open>
  C6: every emitted lag record has a non-null lag of at least 0 months.
\<close>

theorem lag_months_nonneg:
  assumes "\<forall>x \<in> set df. ts_valid (Date x)"
    and "\<forall>ty \<in> set df_typhoons. \<forall>d. Date_Entered_PAR ty = Some d \<longrightarrow> ts_valid d"
    and "r \<in> set (lag_records (lag_section df_typhoons df))"
  shows "\<exists>l. Lag_Months r = Some l \<and> 0 \<le> l"
proof -
  from lag_record_window [OF assms(3)] obtain ty d fd where
    f: "ty \<in> set df_typhoons" "Date_Entered_PAR ty = Some d" "\<exists>x \<in> set df. Date x = fd"
       "ts_le d fd" "ts_le fd (add_months d 2)"
       "Lag_Months r = Some ((year fd - year d) * 12 + (int (month fd) - int (month d)))"
    by blast
  from f(1,2) assms(2) have "ts_valid d" by blast
  moreover from f(3) assms(1) have "ts_valid fd" by blast
  ultimately have "0 \<le> (year fd - year d) * 12 + (int (month fd) - int (month d))"
    using f(4,5) by (rule lag_bounds(1))
  with f(6) show ?thesis by simp
qed

theorem lag_months_nonneg_witness:
  "list_all (\<lambda>x. ts_valid (Date x)) ex_spikes \<and>
   list_all (\<lambda>ty. case Date_Entered_PAR ty of None \<Rightarrow> True | Some d \<Rightarrow> ts_valid d) ex_typhoons \<and>
   \<lparr>lag_Commodity_Name = ''Rice'', lag_Date = Some (ts 2021 7 1), Lag_Months = Some 1,
     lag_Typhoon_Name = ''X''\<rparr> \<in> set (lag_records (lag_section ex_typhoons ex_spikes)) \<and>
   (\<exists>l. Lag_Months \<lparr>lag_Commodity_Name = ''Rice'', lag_Date = Some (ts 2021 7 1),
                      Lag_Months = Some 1, lag_Typhoon_Name = ''X''\<rparr> = Some l \<and> 0 \<le> l)"
proof -
  have p: "list_all (\<lambda>x. ts_valid (Date x)) ex_spikes"
    using ex_valid(1) by (simp add: list_all_iff)
  have t: "list_all (\<lambda>ty. case Date_Entered_PAR ty of None \<Rightarrow> True | Some d \<Rightarrow> ts_valid d) ex_typhoons"
    using ex_valid(2) by (simp add: list_all_iff split: option.splits)
  from p t ex_record_X lag_months_nonneg [OF ex_valid ex_record_X] show ?thesis
    by (intro conjI)
qed

text \<open>
  C10: every emitted lag record has a lag of at most 2 months, for price dates of any day
  of the month.
\<close>

theorem lag_months_le_window:
  assumes "\<forall>x \<in> set df. ts_valid (Date x)"
    and "\<forall>ty \<in> set df_typhoons. \<forall>d. Date_Entered_PAR ty = Some d \<longrightarrow> ts_valid d"
    and "r \<in> set (lag_records (lag_section df_typhoons df))"
  shows "\<exists>l. Lag_Months r = Some l \<and> l \<le> 2"
proof -
  from lag_record_window [OF assms(3)] obtain ty d fd where
    f: "ty \<in> set df_typhoons" "Date_Entered_PAR ty = Some d" "\<exists>x \<in> set df. Date x = fd"
       "ts_le d fd" "ts_le fd (add_months d 2)"
       "Lag_Months r = Some ((year fd - year d) * 12 + (int (month fd) - int (month d)))"
    by blast
  from f(1,2) assms(2) have "ts_valid d" by blast
  moreover from f(3) assms(1) have "ts_valid fd" by blast
  ultimately have "(year fd - year d) * 12 + (int (month fd) - int (month d)) \<le> 2"
    using f(4,5) by (rule lag_bounds(2))
  with f(6) show ?thesis by simp
qed

theorem lag_months_le_window_witness:
  "list_all (\<lambda>x. ts_valid (Date x)) ex_spikes \<and>
   list_all (\<lambda>ty. case Date_Entered_PAR ty of None \<Rightarrow> True | Some d \<Rightarrow> ts_valid d) ex_typhoons \<and>
   \<lparr>lag_Commodity_Name = ''Rice'', lag_Date = Some (ts 2021 7 1), Lag_Months = Some 1,
     lag_Typhoon_Name = ''X''\<rparr> \<in> set (lag_records (lag_section ex_typhoons ex_spikes)) \<and>
   (\<exists>l. Lag_Months \<lparr>lag_Commodity_Name = ''Rice'', lag_Date = Some (ts 2021 7 1),
                      Lag_Months = Some 1, lag_Typhoon_Name = ''X''\<rparr> = Some l \<and> l \<le> 2)"
proof -
  have p: "list_all (\<lambda>x. ts_valid (Date x)) ex_spikes"
    using ex_valid(1) by (simp add: list_all_iff)
  have t: "list_all (\<lambda>ty. case Date_Entered_PAR ty of None \<Rightarrow> True | Some d \<Rightarrow> ts_valid d) ex_typhoons"
    using ex_valid(2) by (simp add: list_all_iff split: option.splits)
  from p t ex_record_X lag_months_le_window [OF ex_valid ex_record_X] show ?thesis
    by (intro conjI)
qed

subsection \<open>The lag summary\<close>

lemma set_insert_by_mean: "set (insert_by_mean r ss) = insert r (set ss)"
  by (induction ss) auto

lemma set_sort_values_mean: "set (sort_values_mean ss) = set ss"
  unfolding sort_values_mean_def by (induction ss) (simp_all add: set_insert_by_mean)

lemma distinct_insert_by_mean:
  "distinct (map f (insert_by_mean r ss)) \<longleftrightarrow> f r \<notin> f ` set ss \<and> distinct (map f ss)"
  by (induction ss) (auto simp: set_insert_by_mean)

lemma distinct_sort_values_mean:
  "distinct (map f (sort_values_mean ss)) \<longleftrightarrow> distinct (map f ss)"
  unfolding sort_values_mean_def
proof (induction ss)
  case Nil
  show ?case by simp
next
  case (Cons a ss)
  have "set (foldr insert_by_mean ss []) = set ss"
    using set_sort_values_mean [of ss] by (simp add: sort_values_mean_def)
  with Cons show ?case
    by (simp add: distinct_insert_by_mean)
qed

lemma mean_le_total: "mean_le a b \<or> mean_le b a"
  by (cases a; cases b) auto

lemma mean_le_trans: "mean_le a b \<Longrightarrow> mean_le b c \<Longrightarrow> mean_le a c"
  by (cases a; cases b; cases c) auto

lemma sorted_insert_by_mean:
  "sorted_wrt (\<lambda>a b. mean_le (lag_mean a) (lag_mean b)) ss \<Longrightarrow>
   sorted_wrt (\<lambda>a b. mean_le (lag_mean a) (lag_mean b)) (insert_by_mean r ss)"
proof (induction ss)
  case Nil
  show ?case by simp
next
  case (Cons s ss)
  show ?case
  proof (cases "mean_le (lag_mean r) (lag_mean s)")
    case True
    with Cons.prems show ?thesis
      by (auto intro: mean_le_trans)
  next
    case False
    then have "mean_le (lag_mean s) (lag_mean r)"
      using mean_le_total by blast
    with False Cons show ?thesis
      by (auto simp: set_insert_by_mean)
  qed
qed

lemma sorted_sort_values_mean:
  "sorted_wrt (\<lambda>a b. mean_le (lag_mean a) (lag_mean b)) (sort_values_mean ss)"
  unfolding sort_values_mean_def
  by (induction ss) (simp_all add: sorted_insert_by_mean)

lemma map_filter_id_map: "List.map_filter id (map f xs) = List.map_filter f xs"
  by (induction xs) (simp_all add: List.map_filter_def)

lemma length_map_filter_total:
  "\<forall>x \<in> set xs. f x \<noteq> None \<Longrightarrow> length (List.map_filter f xs) = length xs"
  by (induction xs) (auto simp: List.map_filter_def)

lemma set_lag_summary:
  "set (lag_summary df_lag) =
     (\<lambda>c. \<lparr>sum_Commodity_Name = c,
            lag_mean = fst (lag_agg (map Lag_Months (filter (\<lambda>r. lag_Commodity_Name r = c) df_lag))),
            lag_median = fst (snd (lag_agg (map Lag_Months (filter (\<lambda>r. lag_Commodity_Name r = c) df_lag)))),
            lag_count = snd (snd (lag_agg (map Lag_Months (filter (\<lambda>r. lag_Commodity_Name r = c) df_lag))))\<rparr>)
       ` lag_Commodity_Name ` set df_lag"
proof -
  have k: "set (group_keys (\<lambda>r. Some (lag_Commodity_Name r)) df_lag) = lag_Commodity_Name ` set df_lag"
    by (auto simp: set_group_keys image_iff)
  show ?thesis
    unfolding lag_summary_def set_sort_values_mean groupby_agg_def group_of_def
    by (simp add: k image_image case_prod_beta)
qed

lemma names_lag_summary:
  "distinct (map sum_Commodity_Name (lag_summary df_lag))"
  unfolding lag_summary_def distinct_sort_values_mean
  by (simp add: groupby_agg_def comp_def case_prod_beta distinct_group_keys)

text \<open>
  C7: the summary has one row for each commodity that has a lag record and none for any
  other commodity; the row holds the number of the commodity's records, the arithmetic mean
  of their lags and the median of their lags (the middle value of the sorted lags, or the
  mean of the two middle values).
\<close>

theorem lag_summary_correct:
  assumes "\<forall>r \<in> set df_lag. Lag_Months r \<noteq> None"
  shows "distinct (map sum_Commodity_Name (lag_summary df_lag)) \<and>
         sum_Commodity_Name ` set (lag_summary df_lag) = lag_Commodity_Name ` set df_lag \<and>
         (\<forall>s \<in> set (lag_summary df_lag).
            (let rs = filter (\<lambda>r. lag_Commodity_Name r = sum_Commodity_Name s) df_lag;
                 ls = map real_of_int (List.map_filter Lag_Months rs);
                 n = length rs
             in 1 \<le> n \<and> length ls = n \<and> lag_count s = n \<and>
                lag_mean s = Some (sum_list ls / real n) \<and>
                lag_median s = Some (if odd n then sort ls ! (n div 2)
                                     else (sort ls ! (n div 2 - 1) + sort ls ! (n div 2)) / 2)))"
proof -
  have names: "sum_Commodity_Name ` set (lag_summary df_lag) = lag_Commodity_Name ` set df_lag"
    unfolding set_lag_summary by (simp add: image_image)
  have row: "let rs = filter (\<lambda>r. lag_Commodity_Name r = sum_Commodity_Name s) df_lag;
                 ls = map real_of_int (List.map_filter Lag_Months rs);
                 n = length rs
             in 1 \<le> n \<and> length ls = n \<and> lag_count s = n \<and>
                lag_mean s = Some (sum_list ls / real n) \<and>
                lag_median s = Some (if odd n then sort ls ! (n div 2)
                                     else (sort ls ! (n div 2 - 1) + sort ls ! (n div 2)) / 2)"
    if "s \<in> set (lag_summary df_lag)" for s
  proof -
    from that obtain c where c: "c \<in> lag_Commodity_Name ` set df_lag"
      and s: "s = \<lparr>sum_Commodity_Name = c,
            lag_mean = fst (lag_agg (map Lag_Months (filter (\<lambda>r. lag_Commodity_Name r = c) df_lag))),
            lag_median = fst (snd (lag_agg (map Lag_Months (filter (\<lambda>r. lag_Commodity_Name r = c) df_lag)))),
            lag_count = snd (snd (lag_agg (map Lag_Months (filter (\<lambda>r. lag_Commodity_Name r = c) df_lag))))\<rparr>"
      unfolding set_lag_summary by blast
    define rs where "rs = filter (\<lambda>r. lag_Commodity_Name r = c) df_lag"
    from c have ne: "rs \<noteq> []"
      by (auto simp: rs_def filter_empty_conv)
    from assms have "\<forall>r \<in> set rs. Lag_Months r \<noteq> None"
      by (simp add: rs_def)
    then have len: "length (List.map_filter Lag_Months rs) = length rs"
      by (rule length_map_filter_total)
    from ne have n1: "1 \<le> length rs"
      by (simp add: Suc_le_eq)
    have agg: "lag_agg (map Lag_Months rs) =
                (series_mean (map real_of_int (List.map_filter Lag_Months rs)),
                 series_median (map real_of_int (List.map_filter Lag_Months rs)),
                 length rs)"
      by (simp add: lag_agg_def map_filter_id_map len Let_def)
    have nem: "map real_of_int (List.map_filter Lag_Months rs) \<noteq> []"
      using len ne by (metis length_0_conv map_is_Nil_conv)
    show ?thesis
      using n1 nem len ne
      unfolding s Let_def
      by (simp add: rs_def [symmetric] agg series_mean_def series_median_def Let_def)
  qed
  from names_lag_summary names row show ?thesis by blast
qed

lemma lag_records_non_null:
  "\<forall>r \<in> set (lag_records (lag_section df_typhoons df)). Lag_Months r \<noteq> None"
  using lag_record_window by fastforce

lemma lag_summary_of_section:
  "lag_summary_of (lag_section df_typhoons df) = lag_summary (lag_records (lag_section df_typhoons df))"
  by (simp add: lag_section_def Let_def lag_summary_def sort_values_mean_def groupby_agg_def
      group_keys_def List.map_filter_def)

theorem lag_summary_correct_witness:
  "list_all (\<lambda>r. Lag_Months r \<noteq> None) (lag_records (lag_section ex_typhoons ex_spikes)) \<and>
   lag_summary (lag_records (lag_section ex_typhoons ex_spikes)) =
     [\<lparr>sum_Commodity_Name = ''Rice'', lag_mean = Some (3 / 2), lag_median = Some (3 / 2),
       lag_count = 2\<rparr>] \<and>
   sum_Commodity_Name ` set (lag_summary (lag_records (lag_section ex_typhoons ex_spikes))) =
     lag_Commodity_Name ` set (lag_records (lag_section ex_typhoons ex_spikes))"
proof -
  have h: "\<forall>r \<in> set (lag_records (lag_section ex_typhoons ex_spikes)). Lag_Months r \<noteq> None"
    unfolding ex_lag_section by simp
  have e: "lag_summary (lag_records (lag_section ex_typhoons ex_spikes)) =
     [\<lparr>sum_Commodity_Name = ''Rice'', lag_mean = Some (3 / 2), lag_median = Some (3 / 2),
       lag_count = 2\<rparr>]"
    unfolding ex_lag_section lag_records.simps by (rule ex_lag_summary)
  from lag_summary_correct [OF h] have
    "sum_Commodity_Name ` set (lag_summary (lag_records (lag_section ex_typhoons ex_spikes))) =
     lag_Commodity_Name ` set (lag_records (lag_section ex_typhoons ex_spikes))"
    by (rule conjunct2 [THEN conjunct1])
  moreover from h have
    "list_all (\<lambda>r. Lag_Months r \<noteq> None) (lag_records (lag_section ex_typhoons ex_spikes))"
    by (simp add: list_all_iff)
  ultimately show ?thesis using e by (intro conjI)
qed

subsection \<open>Empty tables\<close>





end
